theory Spec2Isabelle
  imports Complex_Main "HOL-Library.Sublist"
begin

section \<open>Strings of the run time\<close>

text \<open>
  The tag service is the class \<open>AIService\<close> of \<open>src/services/AIService.ts\<close>, in the
  revision that tells two providers apart, \<open>gemini\<close> and \<open>openai\<close>; the command that calls
  it is \<open>analyzeTags\<close> of \<open>main.ts\<close>.

  The plugin is TypeScript; its strings are sequences of code units. They are modelled as
  \<^typ>\<open>string\<close>, a character being a code unit in the range 0..255 (ASCII and the
  Latin-1 supplement). On that range the three built-ins the tag service relies on are
  written out below exactly: \<open>String.prototype.toLowerCase\<close>, the white space class
  shared by \<open>trim\<close> and the regular expression \<open>\s\<close>, and \<open>split\<close>.
\<close>

text \<open>
  Lower-casing adds 32 to the code units of \<open>A..Z\<close> (65..90) and of the Latin-1 capitals
  (192..222 without the multiplication sign 215). In these ranges bit 5 is clear, so adding
  32 is setting that bit.
\<close>

fun lowerChar :: "char \<Rightarrow> char" where
  "lowerChar (Char b0 b1 b2 b3 b4 b5 b6 b7) =
     (let n = (of_char (Char b0 b1 b2 b3 b4 b5 b6 b7) :: nat) in
      if (65 \<le> n \<and> n \<le> 90) \<or> (192 \<le> n \<and> n \<le> 222 \<and> n \<noteq> 215)
      then Char b0 b1 b2 b3 b4 True b6 b7
      else Char b0 b1 b2 b3 b4 b5 b6 b7)"

definition toLowerCase :: "string \<Rightarrow> string" where
  "toLowerCase s = map lowerChar s"

section \<open>Configuration of the tag service\<close>

text \<open>
  \<open>ProviderSettings\<close> is the per-provider entry of the plugin settings (main.ts);
  \<open>AIServiceConfig\<close> is the configuration handed to \<open>AIService\<close>, which has the
  same three fields and the optional list of tags already in use.
\<close>

record ProviderSettings =
  apiKey :: string
  apiUrl :: string
  model :: string

record AIServiceConfig = ProviderSettings +
  existingTags :: "string list option"

section \<open>Similarity of two tags\<close>

text \<open>
  \<open>calculateSimilarity\<close>: both strings are lower-cased; equal strings score 1; otherwise
  the score is the number of distinct characters the two share, divided by the larger of the
  two numbers of distinct characters. A JavaScript \<open>Set\<close> built from the characters is a
  duplicate-free list here and its \<open>size\<close> is the length of that list.

  The source computes the quotient in double precision. The score is kept as an exact
  rational: numerator and denominator are at most 256, so two different quotients differ by
  more than \<open>1 / 65536\<close>, as does any quotient other than \<open>7 / 10\<close> from the threshold,
  and correctly rounded division maps \<open>7 / 10\<close> to the very double the literal \<open>0.7\<close>
  denotes. Every comparison the source makes on doubles therefore has the outcome of the
  same comparison on the rationals.
\<close>

definition calculateSimilarity :: "string \<Rightarrow> string \<Rightarrow> rat" where
  "calculateSimilarity str1 str2 =
     (let s1 = toLowerCase str1; s2 = toLowerCase str2 in
      if s1 = s2 then 1
      else
        let set1 = remdups s1;
            set2 = remdups s2;
            intersection = filter (\<lambda>x. x \<in> set set2) set1
        in of_nat (length intersection) / of_nat (max (length set1) (length set2)))"

section \<open>Reconciliation with the tags already in use\<close>

definition similarityThreshold :: rat where
  "similarityThreshold = 7 / 10"

text \<open>
  The loop of \<open>findSimilarExistingTag\<close> over \<open>existingTags\<close>, with its two local
  variables \<open>mostSimilarTag\<close> (\<open>None\<close> for \<open>null\<close>) and \<open>highestSimilarity\<close>.
\<close>

fun findSimilarLoop :: "string \<Rightarrow> string list \<Rightarrow> string option \<Rightarrow> rat \<Rightarrow> string option" where
  "findSimilarLoop newTag [] mostSimilarTag highestSimilarity = mostSimilarTag"
| "findSimilarLoop newTag (existingTag # rest) mostSimilarTag highestSimilarity =
     (let similarity = calculateSimilarity newTag existingTag in
      if similarity > similarityThreshold \<and> similarity > highestSimilarity
      then findSimilarLoop newTag rest (Some existingTag) similarity
      else findSimilarLoop newTag rest mostSimilarTag highestSimilarity)"

text \<open>
  \<open>findSimilarExistingTag\<close>: the guard \<open>!this.config.existingTags?.length\<close> returns
  \<open>null\<close> when the list is missing or empty.
\<close>

definition findSimilarExistingTag :: "AIServiceConfig \<Rightarrow> string \<Rightarrow> string option" where
  "findSimilarExistingTag config newTag =
     (case existingTags config of
        None \<Rightarrow> None
      | Some [] \<Rightarrow> None
      | Some (t # ts) \<Rightarrow> findSimilarLoop newTag (t # ts) None 0)"

text \<open>
  The last statement of \<open>generateTags\<close> maps every generated tag to
  \<open>similarTag || tag\<close>: the tag is kept when the search returned \<open>null\<close>, and also when
  it returned the empty string, which JavaScript counts as false.
\<close>

definition reconcileTag :: "AIServiceConfig \<Rightarrow> string \<Rightarrow> string" where
  "reconcileTag config tag =
     (case findSimilarExistingTag config tag of
        None \<Rightarrow> tag
      | Some similarTag \<Rightarrow> if similarTag = [] then tag else similarTag)"

definition reconcileTags :: "AIServiceConfig \<Rightarrow> string list \<Rightarrow> string list" where
  "reconcileTags config generatedTags = map (reconcileTag config) generatedTags"

section \<open>White space, trimming and splitting\<close>

text \<open>
  The white space of \<open>trim\<close> and of \<open>\s\<close> among the code units 0..255: tab, line feed,
  vertical tab, form feed, carriage return, space and the no-break space.
\<close>

definition isSpace :: "char \<Rightarrow> bool" where
  "isSpace c = (c \<in> set [CHR 0x09, CHR 0x0A, CHR 0x0B, CHR 0x0C, CHR 0x0D, CHR 0x20, CHR 0xA0])"

definition trim :: "string \<Rightarrow> string" where
  "trim s = rev (dropWhile isSpace (rev (dropWhile isSpace s)))"

text \<open>
  \<open>s.split(sep)\<close> for a separator of one character: the pieces between the separators,
  so a string without separator, the empty string too, gives one piece.
\<close>

fun split :: "char \<Rightarrow> string \<Rightarrow> string list" where
  "split sep [] = [[]]"
| "split sep (c # cs) =
     (if c = sep then [] # split sep cs
      else (case split sep cs of [] \<Rightarrow> [[c]] | piece # pieces \<Rightarrow> (c # piece) # pieces))"

text \<open>\<open>tag.replace(/\s+/g, '')\<close> deletes every run of white space, hence every white space.\<close>

definition removeWhitespace :: "string \<Rightarrow> string" where
  "removeWhitespace s = filter (\<lambda>c. \<not> isSpace c) s"

text \<open>\<open>s.includes(sub)\<close>: \<open>sub\<close> occurs in \<open>s\<close> as a block of consecutive characters.\<close>

fun str_includes :: "string \<Rightarrow> string \<Rightarrow> bool" where
  "str_includes [] sub = (sub = [])"
| "str_includes (c # cs) sub = (prefix sub (c # cs) \<or> str_includes cs sub)"

section \<open>Values and errors of the run time\<close>

text \<open>
  A parsed JSON document, together with \<open>undefined\<close>, which reading a missing property
  yields. An object is the list of its properties with their values, every name once.
\<close>

datatype js =
    JUndefined
  | JNull
  | JBool bool
  | JNum rat
  | JStr string
  | JArr "js list"
  | JObj "(string \<times> js) list"

definition nullish :: "js \<Rightarrow> bool" where
  "nullish v = (v = JUndefined \<or> v = JNull)"

text \<open>Truthiness, as the operator \<open>||\<close> tests it.\<close>

fun truthy :: "js \<Rightarrow> bool" where
  "truthy JUndefined = False"
| "truthy JNull = False"
| "truthy (JBool b) = b"
| "truthy (JNum n) = (n \<noteq> 0)"
| "truthy (JStr s) = (s \<noteq> [])"
| "truthy (JArr xs) = True"
| "truthy (JObj members) = True"

definition orElse :: "js \<Rightarrow> js \<Rightarrow> js" where
  "orElse v d = (if truthy v then v else d)"

text \<open>
  \<open>v.name\<close> on a value that is neither \<open>null\<close> nor \<open>undefined\<close>, for the property names
  this program reads (\<open>choices\<close>, \<open>message\<close>, \<open>content\<close>, \<open>candidates\<close>, \<open>parts\<close>,
  \<open>text\<close>, \<open>error\<close>): only an object can have such a property.
\<close>

fun getProp :: "string \<Rightarrow> js \<Rightarrow> js" where
  "getProp name (JObj members) = (case map_of members name of Some v \<Rightarrow> v | None \<Rightarrow> JUndefined)"
| "getProp name v = JUndefined"

text \<open>
  \<open>v[0]\<close> on a value that is neither \<open>null\<close> nor \<open>undefined\<close>: the first element of an
  array, the first character of a string, the property \<open>"0"\<close> of an object.
\<close>

fun index0 :: "js \<Rightarrow> js" where
  "index0 (JArr xs) = (case xs of [] \<Rightarrow> JUndefined | x # _ \<Rightarrow> x)"
| "index0 (JStr s) = (case s of [] \<Rightarrow> JUndefined | c # _ \<Rightarrow> JStr [c])"
| "index0 (JObj members) = (case map_of members ''0'' of Some v \<Rightarrow> v | None \<Rightarrow> JUndefined)"
| "index0 v = JUndefined"

text \<open>Optional chaining \<open>v?.\<close>: \<open>undefined\<close> when \<open>v\<close> is \<open>null\<close> or \<open>undefined\<close>.\<close>

definition optChain :: "(js \<Rightarrow> js) \<Rightarrow> js \<Rightarrow> js" where
  "optChain f v = (if nullish v then JUndefined else f v)"

text \<open>
  The errors that occur. The class \<open>RequestError\<close> is imported from
  \<open>errors/RequestError\<close>; it is constructed from a message and a status and read through
  \<open>status\<close>. Every \<open>new Error(...)\<close> of the sources has a constructor of its own, named
  after its message.
\<close>

datatype message = ServerMessage js | RequestFailed | RequestTimeout

datatype error =
    RequestError message nat
  | AbortError
  | TypeError
  | SyntaxError
  | OtherError string
  | ParseFailed
  | ApiKeyMissing
  | GenerateFailed error
  | ThrownUndefined

section \<open>Parsing the response\<close>

text \<open>
  \<open>v?.trim()\<close>: \<open>undefined\<close> for \<open>null\<close> and \<open>undefined\<close>, the trimmed string for a
  string; any other value has no method \<open>trim\<close> and the call throws a \<open>TypeError\<close>.
\<close>

fun optTrim :: "js \<Rightarrow> error + js" where
  "optTrim JUndefined = Inr JUndefined"
| "optTrim JNull = Inr JUndefined"
| "optTrim (JStr s) = Inr (JStr (trim s))"
| "optTrim v = Inl TypeError"

text \<open>
  The text field each provider is expected to fill: \<open>candidates?.[0]?.content?.parts?.[0]?.text\<close>
  for Gemini, \<open>choices?.[0]?.message?.content\<close> otherwise. The first property is read
  without \<open>?.\<close>, which throws on \<open>null\<close>.
\<close>

definition textField :: "js \<Rightarrow> string \<Rightarrow> error + js" where
  "textField data provider =
     (if nullish data then Inl TypeError
      else if provider = ''gemini''
      then Inr (optChain (getProp ''text'') (optChain index0 (optChain (getProp ''parts'')
             (optChain (getProp ''content'') (optChain index0 (getProp ''candidates'' data))))))
      else Inr (optChain (getProp ''content'') (optChain (getProp ''message'')
             (optChain index0 (getProp ''choices'' data)))))"

definition splitTags :: "string \<Rightarrow> string list" where
  "splitTags tagsText =
     map removeWhitespace (filter (\<lambda>tag. tag \<noteq> []) (map trim (split (CHR '','') tagsText)))"

text \<open>
  \<open>parseResponse\<close>. Whatever is thrown inside its \<open>try\<close> is replaced by the one error of
  its \<open>catch\<close>.
\<close>

definition parseResponse :: "js \<Rightarrow> string \<Rightarrow> error + string list" where
  "parseResponse data provider =
     (case (case textField data provider of Inl e \<Rightarrow> Inl e | Inr field \<Rightarrow> optTrim field) of
        Inl e \<Rightarrow> Inl ParseFailed
      | Inr trimmed \<Rightarrow>
          (case orElse trimmed (JStr []) of
             JStr tagsText \<Rightarrow> Inr (splitTags tagsText)
           | _ \<Rightarrow> Inl ParseFailed))"

section \<open>Building the request\<close>

text \<open>
  The argument of \<open>fetch\<close>: the address and the method (\<open>requestMethod\<close>), headers and
  body of its options.
  The body is the value handed to \<open>JSON.stringify\<close>; the headers are the properties of
  the header object in the order of their assignment.
\<close>

record request =
  url :: string
  requestMethod :: string
  headers :: "(string \<times> string) list"
  body :: js

text \<open>
  The system prompt is a fixed Chinese sentence asking for at most three tags separated by
  commas; no function looks into it. An English rendering stands for it.
\<close>

definition SYSTEM_PROMPT :: string where
  "SYSTEM_PROMPT = ''You are a document tag generator. Produce at most 3 tags, separated by commas, without spaces.''"

definition getProviderFromUrl :: "AIServiceConfig \<Rightarrow> string" where
  "getProviderFromUrl config =
     (if str_includes (apiUrl config) ''generativelanguage.googleapis.com'' then ''gemini''
      else ''openai'')"

definition getFullApiUrl :: "AIServiceConfig \<Rightarrow> string \<Rightarrow> string" where
  "getFullApiUrl config provider =
     (if provider = ''gemini''
      then apiUrl config @ model config @ '':generateContent?key='' @ apiKey config
      else apiUrl config)"

definition getHeaders :: "AIServiceConfig \<Rightarrow> string \<Rightarrow> (string \<times> string) list" where
  "getHeaders config provider =
     [(''Content-Type'', ''application/json'')]
     @ (if provider \<noteq> ''gemini'' \<and> apiKey config \<noteq> []
        then [(''Authorization'', ''Bearer '' @ apiKey config)] else [])"

definition getRequestBody :: "AIServiceConfig \<Rightarrow> string \<Rightarrow> string \<Rightarrow> js" where
  "getRequestBody config content provider =
     (if provider = ''gemini''
      then JObj [(''contents'', JArr [JObj [(''parts'',
             JArr [JObj [(''text'', JStr SYSTEM_PROMPT)], JObj [(''text'', JStr content)]])]])]
      else JObj [(''model'', JStr (model config)),
                 (''messages'', JArr [
                    JObj [(''role'', JStr ''system''), (''content'', JStr SYSTEM_PROMPT)],
                    JObj [(''role'', JStr ''user''), (''content'', JStr content)]])])"

text \<open>The request \<open>generateTags\<close> hands to \<open>makeRequest\<close>.\<close>

definition buildRequest :: "AIServiceConfig \<Rightarrow> string \<Rightarrow> request" where
  "buildRequest config content =
     (let provider = getProviderFromUrl config in
      \<lparr>url = getFullApiUrl config provider,
       requestMethod = ''POST'',
       headers = getHeaders config provider,
       body = getRequestBody config content provider\<rparr>)"

section \<open>One attempt, with its deadline\<close>

text \<open>
  A promise either settles after a number of milliseconds or stays pending for ever.
  \<open>fetch\<close> is the network: for a request it tells when the call settles and whether it
  is rejected with an error or fulfilled with a response. A response has its status and the
  promise of \<open>response.json()\<close>, which yields the parsed body or is rejected with a
  \<open>SyntaxError\<close> when the body is not JSON.
\<close>

datatype 'a promise = Settles nat 'a | Pending

datatype parsed = Json js | NotJson

record response =
  status :: nat
  json :: "parsed promise"

type_synonym fetch = "request \<Rightarrow> (error + response) promise"

definition ok :: "response \<Rightarrow> bool" where
  "ok r = (200 \<le> status r \<and> status r \<le> 299)"

definition TIMEOUT :: nat where
  "TIMEOUT = 30000"

definition MAX_RETRIES :: nat where
  "MAX_RETRIES = 2"

text \<open>The \<open>catch\<close> of \<open>makeRequest\<close>: an error named \<open>AbortError\<close> becomes the time-out error.\<close>

definition catchAbort :: "error \<Rightarrow> error" where
  "catchAbort e = (if e = AbortError then RequestError RequestTimeout 408 else e)"

text \<open>
  The error thrown for a response that is not ok, from the parsed error document:
  \<open>new RequestError(error.error?.message || <request failed>, response.status)\<close>.
\<close>

definition errorOfBody :: "js \<Rightarrow> nat \<Rightarrow> error" where
  "errorOfBody err st =
     (if nullish err then TypeError
      else let m = optChain (getProp ''message'') (getProp ''error'' err)
           in RequestError (if truthy m then ServerMessage m else RequestFailed) st)"

text \<open>
  \<open>makeRequest\<close> returns the response or the error thrown, and the milliseconds it took.
  The timer set to \<open>TIMEOUT\<close> aborts whatever is still pending when it fires, the call
  itself or the reading of the error document; what is aborted is rejected with an
  \<open>AbortError\<close>. A promise that settles at the very instant the timer fires counts as
  aborted.
\<close>

definition makeRequest :: "fetch \<Rightarrow> request \<Rightarrow> (error + response) \<times> nat" where
  "makeRequest fetch req =
     (case fetch req of
        Pending \<Rightarrow> (Inl (catchAbort AbortError), TIMEOUT)
      | Settles t outcome \<Rightarrow>
          if TIMEOUT \<le> t then (Inl (catchAbort AbortError), TIMEOUT)
          else
            (case outcome of
               Inl e \<Rightarrow> (Inl (catchAbort e), t)
             | Inr resp \<Rightarrow>
                 if ok resp then (Inr resp, t)
                 else
                   (case json resp of
                      Pending \<Rightarrow> (Inl (catchAbort AbortError), TIMEOUT)
                    | Settles t' parsed \<Rightarrow>
                        if TIMEOUT \<le> t + t' then (Inl (catchAbort AbortError), TIMEOUT)
                        else
                          (case parsed of
                             NotJson \<Rightarrow> (Inl (catchAbort SyntaxError), t + t')
                           | Json err \<Rightarrow> (Inl (catchAbort (errorOfBody err (status resp))), t + t')))))"

section \<open>Retrying\<close>

text \<open>
  \<open>retryRequest\<close> calls the function it is given up to \<open>MAX_RETRIES + 1\<close> times. The
  function is given here by the outcome of each of its calls, numbered from 0. What happens
  is recorded: every call and every pause, with its length in milliseconds. The method is
  private and no method of the class calls it: \<open>generateTags\<close> calls \<open>makeRequest\<close>
  directly, once.
\<close>

datatype event = Attempt nat | Sleep nat

text \<open>\<open>error instanceof RequestError && error.status >= 500\<close>\<close>

fun retryable :: "error \<Rightarrow> bool" where
  "retryable (RequestError m st) = (500 \<le> st)"
| "retryable e = False"

function retryLoop ::
  "(nat \<Rightarrow> error + 'a) \<Rightarrow> nat \<Rightarrow> error option \<Rightarrow> event list \<Rightarrow> (error + 'a) \<times> event list" where
  "retryLoop fn i lastError events =
     (if i \<le> MAX_RETRIES then
        (case fn i of
           Inr r \<Rightarrow> (Inr r, events @ [Attempt i])
         | Inl e \<Rightarrow>
             if retryable e
             then retryLoop fn (i + 1) (Some e) (events @ [Attempt i, Sleep (2 ^ i * 1000)])
             else (Inl e, events @ [Attempt i]))
      else
        (case lastError of
           Some e \<Rightarrow> (Inl e, events)
         | None \<Rightarrow> (Inl ThrownUndefined, events)))"
  by pat_completeness auto
termination
  by (relation "measure (\<lambda>(fn, i, lastError, events). MAX_RETRIES + 1 - i)") auto

declare retryLoop.simps [simp del]

definition retryRequest :: "(nat \<Rightarrow> error + 'a) \<Rightarrow> (error + 'a) \<times> event list" where
  "retryRequest fn = retryLoop fn 0 None []"



text \<open>An outcome after which the loop goes round again: a failure that is retryable.\<close>

definition retried :: "error + 'a \<Rightarrow> bool" where
  "retried outcome = (case outcome of Inl e \<Rightarrow> retryable e | Inr r \<Rightarrow> False)"

section \<open>Generating tags\<close>

text \<open>
  \<open>generateTags\<close> builds the request, makes one attempt, reads the body of the response
  and parses and reconciles the tags. It returns what the call yields, \<open>None\<close> when the
  call never returns because the body of an ok response never arrives (the timer is cleared
  by then), and the requests handed to \<open>fetch\<close>.
\<close>

definition generateTags ::
  "fetch \<Rightarrow> AIServiceConfig \<Rightarrow> string \<Rightarrow> (error + string list) option \<times> request list" where
  "generateTags fetch config content =
     (let provider = getProviderFromUrl config;
          req = buildRequest config content
      in (case fst (makeRequest fetch req) of
            Inl e \<Rightarrow> (Some (Inl e), [req])
          | Inr resp \<Rightarrow>
              (case json resp of
                 Pending \<Rightarrow> (None, [req])
               | Settles t NotJson \<Rightarrow> (Some (Inl SyntaxError), [req])
               | Settles t (Json data) \<Rightarrow>
                   (case parseResponse data provider of
                      Inl e \<Rightarrow> (Some (Inl e), [req])
                    | Inr generatedTags \<Rightarrow> (Some (Inr (reconcileTags config generatedTags)), [req])))))"

section \<open>The command of the plugin\<close>

record AutoTaggerSettings =
  provider :: string
  providerSettings :: "string \<rightharpoonup> ProviderSettings"
  customPrompt :: string

text \<open>
  \<open>analyzeTags\<close> of main.ts. The configuration it builds has no \<open>existingTags\<close>; the
  \<open>customPrompt\<close> it adds is a property \<open>AIService\<close> never reads.
\<close>

definition analyzeTags ::
  "fetch \<Rightarrow> AutoTaggerSettings \<Rightarrow> string \<Rightarrow> (error + string list) option \<times> request list" where
  "analyzeTags fetch settings content =
     (case providerSettings settings (provider settings) of
        None \<Rightarrow> (Some (Inl ApiKeyMissing), [])
      | Some providerConfig \<Rightarrow>
          if apiKey providerConfig = [] then (Some (Inl ApiKeyMissing), [])
          else
            let config = \<lparr>apiKey = apiKey providerConfig, apiUrl = apiUrl providerConfig,
                          model = model providerConfig, existingTags = None\<rparr>
            in (case generateTags fetch config content of
                  (Some (Inl e), sent) \<Rightarrow> (Some (Inl (GenerateFailed e)), sent)
                | (result, sent) \<Rightarrow> (result, sent)))"

section \<open>Concrete configurations used as instances\<close>

definition golangConfig :: AIServiceConfig where
  "golangConfig = \<lparr>apiKey = ''sk-test'', apiUrl = ''https://api.openai.com/v1/chat/completions'',
     model = ''gpt-4o-mini'', existingTags = Some [''golang'', ''storage'']\<rparr>"

definition tieConfig :: AIServiceConfig where
  "tieConfig = \<lparr>apiKey = ''sk-test'', apiUrl = ''https://api.openai.com/v1/chat/completions'',
     model = ''gpt-4o-mini'', existingTags = Some [''zzzz'', ''abcx'', ''abcy'']\<rparr>"





definition geminiConfig :: AIServiceConfig where
  "geminiConfig = \<lparr>apiKey = ''secret'',
     apiUrl = ''https://generativelanguage.googleapis.com/v1beta/models/'',
     model = ''gemini-1.5-flash'', existingTags = None\<rparr>"

definition answeringFetch :: fetch where
  "answeringFetch req = Settles 120 (Inr \<lparr>status = 200, json = Settles 5 (Json
     (JObj [(''choices'', JArr [JObj [(''message'', JObj [(''content'', JStr ''ai, notes'')])]])]))\<rparr>)"

definition volcanoSettings :: AutoTaggerSettings where
  "volcanoSettings = \<lparr>provider = ''volcano'',
     providerSettings = [''volcano'' \<mapsto> \<lparr>apiKey = ''secret'',
        apiUrl = ''https://ark.cn-beijing.volces.com/api/v3/chat/completions'', model = ''''\<rparr>],
     customPrompt = ''''\<rparr>"

definition noUrlSettings :: AutoTaggerSettings where
  "noUrlSettings = \<lparr>provider = ''openai'',
     providerSettings = [''openai'' \<mapsto> \<lparr>apiKey = ''secret'', apiUrl = '''', model = ''gpt-4o-mini''\<rparr>],
     customPrompt = ''''\<rparr>"

definition noKeySettings :: AutoTaggerSettings where
  "noKeySettings = \<lparr>provider = ''openai'',
     providerSettings = [''openai'' \<mapsto> \<lparr>apiKey = '''',
        apiUrl = ''https://api.openai.com/v1/chat/completions'', model = ''gpt-4o-mini''\<rparr>],
     customPrompt = ''''\<rparr>"

section \<open>Properties of similarity and reconciliation\<close>

lemma shared_length:
  "length (filter (\<lambda>x. x \<in> set ys) (remdups xs)) = card (set xs \<inter> set ys)"
proof -
  have "distinct (filter (\<lambda>x. x \<in> set ys) (remdups xs))" by simp
  then have "length (filter (\<lambda>x. x \<in> set ys) (remdups xs))
      = card (set (filter (\<lambda>x. x \<in> set ys) (remdups xs)))"
    by (rule distinct_card [symmetric])
  also have "set (filter (\<lambda>x. x \<in> set ys) (remdups xs)) = set xs \<inter> set ys"
    by auto
  finally show ?thesis .
qed

lemma calculateSimilarity_card:
  "calculateSimilarity a b =
     (if toLowerCase a = toLowerCase b then 1
      else of_nat (card (set (toLowerCase a) \<inter> set (toLowerCase b)))
           / of_nat (max (card (set (toLowerCase a))) (card (set (toLowerCase b)))))"
  by (simp add: calculateSimilarity_def Let_def shared_length length_remdups_card_conv)

lemma denominator_pos:
  assumes "toLowerCase a \<noteq> toLowerCase b"
  shows "0 < max (card (set (toLowerCase a))) (card (set (toLowerCase b)))"
proof -
  from assms have "toLowerCase a \<noteq> [] \<or> toLowerCase b \<noteq> []" by auto
  then have "0 < card (set (toLowerCase a)) \<or> 0 < card (set (toLowerCase b))"
    by (auto simp: card_gt_0_iff)
  then show ?thesis by auto
qed

lemma calculateSimilarity_sym: "calculateSimilarity a b = calculateSimilarity b a"
  by (simp add: calculateSimilarity_card Int_commute max.commute eq_commute)

lemma calculateSimilarity_refl: "calculateSimilarity a a = 1"
  by (simp add: calculateSimilarity_def)

lemma calculateSimilarity_ge0: "0 \<le> calculateSimilarity a b"
  by (simp add: calculateSimilarity_card)

lemma calculateSimilarity_le1: "calculateSimilarity a b \<le> 1"
proof (cases "toLowerCase a = toLowerCase b")
  case True
  then show ?thesis by (simp add: calculateSimilarity_card)
next
  case False
  let ?A = "set (toLowerCase a)" and ?B = "set (toLowerCase b)"
  have "card (?A \<inter> ?B) \<le> card ?A" by (simp add: card_mono)
  then have le: "card (?A \<inter> ?B) \<le> max (card ?A) (card ?B)" by simp
  have pos: "0 < max (card ?A) (card ?B)" using False by (rule denominator_pos)
  have "(of_nat (card (?A \<inter> ?B)) :: rat) \<le> of_nat (max (card ?A) (card ?B))"
    using le by (simp only: of_nat_le_iff)
  moreover have "(0::rat) < of_nat (max (card ?A) (card ?B))"
    using pos by (simp only: of_nat_0_less_iff)
  ultimately have "(of_nat (card (?A \<inter> ?B)) :: rat) / of_nat (max (card ?A) (card ?B)) \<le> 1"
    by (simp add: divide_le_eq_1)
  with False show ?thesis by (simp add: calculateSimilarity_card)
qed

lemma similarity_empty_existing:
  assumes "similarityThreshold < calculateSimilarity tag []"
  shows "tag = []"
proof (rule ccontr)
  assume "tag \<noteq> []"
  then have "toLowerCase tag \<noteq> toLowerCase []" by (simp add: toLowerCase_def)
  then have "calculateSimilarity tag [] = 0"
    by (simp add: calculateSimilarity_def Let_def toLowerCase_def)
  with assms show False by (simp add: similarityThreshold_def)
qed



lemma findSimilarLoop_none:
  assumes "\<forall>t\<in>set ts. \<not> (similarityThreshold < calculateSimilarity tag t \<and> h < calculateSimilarity tag t)"
  shows "findSimilarLoop tag ts best h = best"
  using assms by (induction ts arbitrary: best h) (auto simp: Let_def)

lemma findSimilarLoop_first_max:
  assumes "i < length ts"
    and "similarityThreshold < calculateSimilarity tag (ts ! i)"
    and "h < calculateSimilarity tag (ts ! i)"
    and "\<forall>j<length ts. calculateSimilarity tag (ts ! j) \<le> calculateSimilarity tag (ts ! i)"
    and "\<forall>j<i. calculateSimilarity tag (ts ! j) < calculateSimilarity tag (ts ! i)"
  shows "findSimilarLoop tag ts best h = Some (ts ! i)"
  using assms
proof (induction ts arbitrary: i best h)
  case Nil
  then show ?case by simp
next
  case (Cons t rest)
  show ?case
  proof (cases i)
    case 0
    have top: "\<forall>u\<in>set rest. calculateSimilarity tag u \<le> calculateSimilarity tag t"
    proof
      fix u assume "u \<in> set rest"
      then obtain k where "k < length rest" "rest ! k = u" by (auto simp: in_set_conv_nth)
      with Cons.prems(4) 0 have "calculateSimilarity tag ((t # rest) ! Suc k) \<le> calculateSimilarity tag t"
        by (metis length_Cons not_less_eq nth_Cons_0)
      with \<open>rest ! k = u\<close> show "calculateSimilarity tag u \<le> calculateSimilarity tag t" by simp
    qed
    then have "findSimilarLoop tag rest (Some t) (calculateSimilarity tag t) = Some t"
      by (intro findSimilarLoop_none) (auto simp: not_less)
    with Cons.prems 0 show ?thesis by (simp add: Let_def)
  next
    case (Suc i')
    let ?m = "calculateSimilarity tag (rest ! i')"
    from Cons.prems Suc have i': "i' < length rest" and thr: "similarityThreshold < ?m"
      and h: "h < ?m" by simp_all
    have all: "\<forall>j<length rest. calculateSimilarity tag (rest ! j) \<le> ?m"
    proof (intro allI impI)
      fix j assume "j < length rest"
      then have "Suc j < length (t # rest)" by simp
      with Cons.prems(4) have "calculateSimilarity tag ((t # rest) ! Suc j) \<le> calculateSimilarity tag ((t # rest) ! i)"
        by blast
      with Suc show "calculateSimilarity tag (rest ! j) \<le> ?m" by simp
    qed
    have before: "\<forall>j<i'. calculateSimilarity tag (rest ! j) < ?m"
    proof (intro allI impI)
      fix j assume "j < i'"
      then have "Suc j < i" using Suc by simp
      with Cons.prems(5) have "calculateSimilarity tag ((t # rest) ! Suc j) < calculateSimilarity tag ((t # rest) ! i)"
        by blast
      with Suc show "calculateSimilarity tag (rest ! j) < ?m" by simp
    qed
    have head: "calculateSimilarity tag t < ?m"
      using Cons.prems(5) Suc by (metis nth_Cons_0 nth_Cons_Suc zero_less_Suc)
    have a: "findSimilarLoop tag rest (Some t) (calculateSimilarity tag t) = Some (rest ! i')"
      using i' thr head all before by (rule Cons.IH)
    have b: "findSimilarLoop tag rest best h = Some (rest ! i')"
      using i' thr h all before by (rule Cons.IH)
    from a b Suc show ?thesis by (simp add: Let_def)
  qed
qed

text \<open>A non-empty list has an earliest element of maximal score.\<close>

lemma earliest_maximum:
  fixes f :: "'a \<Rightarrow> rat"
  assumes "ts \<noteq> []"
  shows "\<exists>i<length ts. (\<forall>j<length ts. f (ts ! j) \<le> f (ts ! i)) \<and> (\<forall>j<i. f (ts ! j) < f (ts ! i))"
proof -
  let ?M = "Max (f ` set ts)"
  have fin: "finite (f ` set ts)" and ne: "f ` set ts \<noteq> {}" using assms by simp_all
  then have "?M \<in> f ` set ts" by (rule Max_in)
  then obtain k where k: "k < length ts" "f (ts ! k) = ?M" by (auto simp: in_set_conv_nth)
  define i where "i = (LEAST k. k < length ts \<and> f (ts ! k) = ?M)"
  have i: "i < length ts \<and> f (ts ! i) = ?M"
    unfolding i_def by (rule LeastI [of "\<lambda>k. k < length ts \<and> f (ts ! k) = ?M" k]) (simp add: k)
  have le: "f (ts ! j) \<le> ?M" if "j < length ts" for j
    using that fin by (intro Max_ge) auto
  have "f (ts ! j) < ?M" if "j < i" for j
  proof -
    from that i have j: "j < length ts" by simp
    have "f (ts ! j) \<noteq> ?M"
    proof
      assume "f (ts ! j) = ?M"
      with j have "i \<le> j" unfolding i_def by (intro Least_le) simp
      with that show False by simp
    qed
    with le [OF j] show ?thesis by simp
  qed
  with i le show ?thesis by auto
qed

lemma findSimilarExistingTag_Some_list:
  "existingTags config = Some ts \<Longrightarrow> findSimilarExistingTag config tag = findSimilarLoop tag ts None 0"
  by (cases ts) (simp_all add: findSimilarExistingTag_def)

lemma reconcileTag_found:
  assumes "findSimilarExistingTag config tag = Some t"
    and "similarityThreshold < calculateSimilarity tag t"
  shows "reconcileTag config tag = t"
  using assms similarity_empty_existing [of tag] by (auto simp: reconcileTag_def)



lemma reconcileTag_over_threshold:
  assumes ts: "existingTags config = Some ts"
    and ex: "\<exists>t\<in>set ts. similarityThreshold < calculateSimilarity c t"
  shows "reconcileTag config c \<in> set ts
       \<and> similarityThreshold < calculateSimilarity c (reconcileTag config c)
       \<and> (\<forall>t\<in>set ts. calculateSimilarity c t \<le> calculateSimilarity c (reconcileTag config c))"
proof -
  from ex have "ts \<noteq> []" by auto
  from earliest_maximum [OF this, of "calculateSimilarity c"]
  obtain i where i: "i < length ts"
    and mx: "\<forall>j<length ts. calculateSimilarity c (ts ! j) \<le> calculateSimilarity c (ts ! i)"
    and first: "\<forall>j<i. calculateSimilarity c (ts ! j) < calculateSimilarity c (ts ! i)"
    by blast
  from ex obtain t where t: "t \<in> set ts" "similarityThreshold < calculateSimilarity c t" by blast
  from t(1) obtain k where "k < length ts" "ts ! k = t" by (auto simp: in_set_conv_nth)
  with mx have "calculateSimilarity c t \<le> calculateSimilarity c (ts ! i)" by blast
  with t(2) have thr: "similarityThreshold < calculateSimilarity c (ts ! i)" by simp
  then have zero: "0 < calculateSimilarity c (ts ! i)" by (simp add: similarityThreshold_def)
  have "findSimilarLoop c ts None 0 = Some (ts ! i)"
    using i thr zero mx first by (rule findSimilarLoop_first_max)
  with ts have "findSimilarExistingTag config c = Some (ts ! i)"
    by (simp add: findSimilarExistingTag_Some_list)
  then have r: "reconcileTag config c = ts ! i" using thr by (rule reconcileTag_found)
  have "\<forall>t\<in>set ts. calculateSimilarity c t \<le> calculateSimilarity c (ts ! i)"
    using mx by (auto simp: in_set_conv_nth)
  with r i thr show ?thesis by simp
qed

lemma reconcileTag_under_threshold:
  assumes ts: "existingTags config = Some ts"
    and no: "\<forall>t\<in>set ts. \<not> similarityThreshold < calculateSimilarity c t"
  shows "reconcileTag config c = c"
proof -
  from no have "findSimilarLoop c ts None 0 = None"
    by (intro findSimilarLoop_none) simp
  with ts show ?thesis
    by (simp add: reconcileTag_def findSimilarExistingTag_Some_list)
qed

lemma sim_golang:
  "calculateSimilarity ''Golang'' ''golang'' = 1"
  "calculateSimilarity ''Golang'' ''storage'' = 3 / 7"
  "calculateSimilarity ''databases'' ''golang'' = 1 / 6"
  "calculateSimilarity ''databases'' ''storage'' = 4 / 7"
  by (simp_all add: calculateSimilarity_def toLowerCase_def)

text \<open>
  C1. Reconciliation maps every candidate on its own and in order. With a list \<open>ts\<close> of
  existing tags, a candidate for which some existing tag scores strictly above the threshold
  0.7 is replaced, at its own position, by an existing tag whose score is above the threshold
  and maximal among all existing tags; a candidate for which no existing tag scores above
  the threshold is kept unchanged. For the candidates \<open>Golang, databases\<close> and the existing
  tags \<open>golang, storage\<close> the result is \<open>golang, databases\<close>.
\<close>

theorem reconcile_candidates:
  "(existingTags config = Some ts \<longrightarrow>
      length (reconcileTags config cands) = length cands
    \<and> reconcileTags config cands = map (\<lambda>c. hd (reconcileTags config [c])) cands
    \<and> (\<forall>k<length cands.
         ((\<exists>t\<in>set ts. similarityThreshold < calculateSimilarity (cands ! k) t) \<longrightarrow>
            reconcileTags config cands ! k \<in> set ts
          \<and> similarityThreshold < calculateSimilarity (cands ! k) (reconcileTags config cands ! k)
          \<and> (\<forall>t\<in>set ts. calculateSimilarity (cands ! k) t
                 \<le> calculateSimilarity (cands ! k) (reconcileTags config cands ! k)))
       \<and> ((\<forall>t\<in>set ts. \<not> similarityThreshold < calculateSimilarity (cands ! k) t) \<longrightarrow>
            reconcileTags config cands ! k = cands ! k)))
   \<and> similarityThreshold = 7 / 10
   \<and> reconcileTags \<lparr>apiKey = k, apiUrl = u, model = m, existingTags = Some [''golang'', ''storage'']\<rparr>
        [''Golang'', ''databases''] = [''golang'', ''databases'']"
proof (intro conjI impI allI)
  show "similarityThreshold = 7 / 10" by (simp add: similarityThreshold_def)
next
  show "reconcileTags \<lparr>apiKey = k, apiUrl = u, model = m, existingTags = Some [''golang'', ''storage'']\<rparr>
        [''Golang'', ''databases''] = [''golang'', ''databases'']"
    by (simp add: reconcileTags_def reconcileTag_def findSimilarExistingTag_def sim_golang
        similarityThreshold_def)
next
  show "length (reconcileTags config cands) = length cands" by (simp add: reconcileTags_def)
next
  show "reconcileTags config cands = map (\<lambda>c. hd (reconcileTags config [c])) cands"
    by (simp add: reconcileTags_def)
next
  fix k
  assume ts: "existingTags config = Some ts" and k: "k < length cands"
    and ex: "\<exists>t\<in>set ts. similarityThreshold < calculateSimilarity (cands ! k) t"
  from k have nth: "reconcileTags config cands ! k = reconcileTag config (cands ! k)"
    by (simp add: reconcileTags_def)
  from reconcileTag_over_threshold [OF ts ex] nth
  show "reconcileTags config cands ! k \<in> set ts"
    and "similarityThreshold < calculateSimilarity (cands ! k) (reconcileTags config cands ! k)"
    and "\<forall>t\<in>set ts. calculateSimilarity (cands ! k) t
                 \<le> calculateSimilarity (cands ! k) (reconcileTags config cands ! k)"
    by simp_all
next
  fix k
  assume ts: "existingTags config = Some ts" and k: "k < length cands"
    and no: "\<forall>t\<in>set ts. \<not> similarityThreshold < calculateSimilarity (cands ! k) t"
  from k have nth: "reconcileTags config cands ! k = reconcileTag config (cands ! k)"
    by (simp add: reconcileTags_def)
  with reconcileTag_under_threshold [OF ts no]
  show "reconcileTags config cands ! k = cands ! k" by simp
qed

theorem reconcile_candidates_witness:
  "existingTags golangConfig = Some [''golang'', ''storage'']
   \<and> (0::nat) < length [''Golang'', ''databases'']
   \<and> (\<exists>t\<in>set [''golang'', ''storage'']. similarityThreshold < calculateSimilarity ''Golang'' t)
   \<and> reconcileTags golangConfig [''Golang'', ''databases''] ! 0 \<in> set [''golang'', ''storage'']
   \<and> (1::nat) < length [''Golang'', ''databases'']
   \<and> \<not> similarityThreshold < calculateSimilarity ''databases'' ''golang''
   \<and> \<not> similarityThreshold < calculateSimilarity ''databases'' ''storage''
   \<and> reconcileTags golangConfig [''Golang'', ''databases''] ! 1 = ''databases''"
proof -
  have cfg: "existingTags golangConfig = Some [''golang'', ''storage'']"
    by (simp add: golangConfig_def)
  have ex: "\<exists>t\<in>set [''golang'', ''storage'']. similarityThreshold < calculateSimilarity ''Golang'' t"
    by (simp add: sim_golang similarityThreshold_def)
  have no: "\<forall>t\<in>set [''golang'', ''storage'']. \<not> similarityThreshold < calculateSimilarity ''databases'' t"
    by (simp add: sim_golang similarityThreshold_def)
  note gen = reconcile_candidates [of golangConfig "[''golang'', ''storage'']" "[''Golang'', ''databases'']",
      THEN conjunct1, rule_format, OF cfg, THEN conjunct2, THEN conjunct2, rule_format]
  have a: "reconcileTags golangConfig [''Golang'', ''databases''] ! 0 \<in> set [''golang'', ''storage'']"
    using gen [of 0, THEN conjunct1, rule_format] ex by simp
  have b: "reconcileTags golangConfig [''Golang'', ''databases''] ! 1 = ''databases''"
    using gen [of 1, THEN conjunct2, rule_format] no by simp
  from cfg ex no a b show ?thesis by simp
qed



text \<open>
  C2. The similarity of a string with itself is 1; similarity is symmetric; it lies in the
  closed interval from 0 to 1. It is 1 when the lower-cased strings are equal, and otherwise
  the number of distinct characters common to the two lower-cased strings divided by the
  larger of their numbers of distinct characters, a divisor that is never zero.
\<close>

theorem similarity_reflexive_symmetric_bounded:
  "calculateSimilarity a a = 1
   \<and> calculateSimilarity a b = calculateSimilarity b a
   \<and> 0 \<le> calculateSimilarity a b
   \<and> calculateSimilarity a b \<le> 1
   \<and> (toLowerCase a = toLowerCase b \<longrightarrow> calculateSimilarity a b = 1)
   \<and> (toLowerCase a \<noteq> toLowerCase b \<longrightarrow>
        0 < max (card (set (toLowerCase a))) (card (set (toLowerCase b)))
      \<and> calculateSimilarity a b =
          of_nat (card (set (toLowerCase a) \<inter> set (toLowerCase b)))
          / of_nat (max (card (set (toLowerCase a))) (card (set (toLowerCase b)))))"
proof (intro conjI impI)
  show "calculateSimilarity a a = 1" by (rule calculateSimilarity_refl)
  show "calculateSimilarity a b = calculateSimilarity b a" by (rule calculateSimilarity_sym)
  show "0 \<le> calculateSimilarity a b" by (rule calculateSimilarity_ge0)
  show "calculateSimilarity a b \<le> 1" by (rule calculateSimilarity_le1)
next
  assume "toLowerCase a = toLowerCase b"
  then show "calculateSimilarity a b = 1" by (simp add: calculateSimilarity_card)
next
  assume ne: "toLowerCase a \<noteq> toLowerCase b"
  then show "0 < max (card (set (toLowerCase a))) (card (set (toLowerCase b)))"
    by (rule denominator_pos)
  from ne show "calculateSimilarity a b =
          of_nat (card (set (toLowerCase a) \<inter> set (toLowerCase b)))
          / of_nat (max (card (set (toLowerCase a))) (card (set (toLowerCase b))))"
    by (simp add: calculateSimilarity_card)
qed

theorem similarity_reflexive_symmetric_bounded_witness:
  "toLowerCase ''Golang'' = toLowerCase ''golang''
   \<and> calculateSimilarity ''Golang'' ''golang'' = 1
   \<and> toLowerCase ''databases'' \<noteq> toLowerCase ''storage''
   \<and> 0 < max (card (set (toLowerCase ''databases''))) (card (set (toLowerCase ''storage'')))
   \<and> calculateSimilarity ''databases'' ''storage'' = 4 / 7
   \<and> calculateSimilarity ''storage'' ''databases'' = 4 / 7"
proof -
  have eq: "toLowerCase ''Golang'' = toLowerCase ''golang''" by (simp add: toLowerCase_def)
  have ne: "toLowerCase ''databases'' \<noteq> toLowerCase ''storage''" by (simp add: toLowerCase_def)
  have one: "calculateSimilarity ''Golang'' ''golang'' = 1"
    using similarity_reflexive_symmetric_bounded [of "''Golang''" "''golang''"] eq by blast
  have pos: "0 < max (card (set (toLowerCase ''databases''))) (card (set (toLowerCase ''storage'')))"
    using similarity_reflexive_symmetric_bounded [of "''databases''" "''storage''"] ne by blast
  have q: "calculateSimilarity ''databases'' ''storage'' = 4 / 7"
    by (simp add: calculateSimilarity_def toLowerCase_def)
  have "calculateSimilarity ''storage'' ''databases'' = calculateSimilarity ''databases'' ''storage''"
    using similarity_reflexive_symmetric_bounded [of "''storage''" "''databases''"] by blast
  with eq ne one pos q show ?thesis by simp
qed

text \<open>
  C10. When several existing tags attain the maximal similarity with a candidate, and that
  maximum is strictly above 0.7, the search returns the earliest of them in the order of
  the list, and the reconciliation substitutes it: position \<open>i\<close> attains the maximum and
  every earlier position scores strictly less.
\<close>

theorem earliest_tied_tag_wins:
  assumes "existingTags config = Some ts"
    and "i < length ts"
    and "similarityThreshold < calculateSimilarity tag (ts ! i)"
    and "\<forall>j<length ts. calculateSimilarity tag (ts ! j) \<le> calculateSimilarity tag (ts ! i)"
    and "\<forall>j<i. calculateSimilarity tag (ts ! j) < calculateSimilarity tag (ts ! i)"
  shows "findSimilarExistingTag config tag = Some (ts ! i)
       \<and> reconcileTags config [tag] = [ts ! i]"
proof -
  from assms(3) have "0 < calculateSimilarity tag (ts ! i)" by (simp add: similarityThreshold_def)
  with assms have "findSimilarLoop tag ts None 0 = Some (ts ! i)"
    by (intro findSimilarLoop_first_max)
  with assms(1) have f: "findSimilarExistingTag config tag = Some (ts ! i)"
    by (simp add: findSimilarExistingTag_Some_list)
  then have "reconcileTag config tag = ts ! i" using assms(3) by (rule reconcileTag_found)
  with f show ?thesis by (simp add: reconcileTags_def)
qed

lemma sim_tie:
  "calculateSimilarity ''abcd'' ''zzzz'' = 0"
  "calculateSimilarity ''abcd'' ''abcx'' = 3 / 4"
  "calculateSimilarity ''abcd'' ''abcy'' = 3 / 4"
  by (simp_all add: calculateSimilarity_def toLowerCase_def)

theorem earliest_tied_tag_wins_witness:
  "existingTags tieConfig = Some [''zzzz'', ''abcx'', ''abcy'']
   \<and> calculateSimilarity ''abcd'' ''abcx'' = calculateSimilarity ''abcd'' ''abcy''
   \<and> similarityThreshold < calculateSimilarity ''abcd'' ''abcx''
   \<and> findSimilarExistingTag tieConfig ''abcd'' = Some ''abcx''
   \<and> reconcileTags tieConfig [''abcd''] = [''abcx'']"
proof -
  let ?ts = "[''zzzz'', ''abcx'', ''abcy'']"
  have cfg: "existingTags tieConfig = Some ?ts" by (simp add: tieConfig_def)
  have i: "(1::nat) < length ?ts" by simp
  have thr: "similarityThreshold < calculateSimilarity ''abcd'' (?ts ! 1)"
    by (simp add: sim_tie similarityThreshold_def)
  have mx: "\<forall>j<length ?ts. calculateSimilarity ''abcd'' (?ts ! j) \<le> calculateSimilarity ''abcd'' (?ts ! 1)"
    by (auto simp: sim_tie less_Suc_eq)
  have first: "\<forall>j<1. calculateSimilarity ''abcd'' (?ts ! j) < calculateSimilarity ''abcd'' (?ts ! 1)"
    by (simp add: sim_tie)
  from earliest_tied_tag_wins [OF cfg i thr mx first] cfg thr
  show ?thesis by (simp add: sim_tie)
qed

section \<open>Properties of the retry loop\<close>


lemma retryLoop_stop:
  assumes "i \<le> MAX_RETRIES" and "\<not> retried (fn i)"
  shows "retryLoop fn i lastError events = (fn i, events @ [Attempt i])"
  using assms by (subst retryLoop.simps) (simp add: retried_def split: sum.splits)




lemma retryRequest_first:
  assumes "\<not> retried (fn 0)"
  shows "retryRequest fn = (fn 0, [Attempt 0])"
  using retryLoop_stop [of 0 fn None "[]"] assms by (simp add: retryRequest_def)











section \<open>Properties of one attempt\<close>







lemma generateTags_sent: "snd (generateTags fetch config content) = [buildRequest config content]"
  by (simp add: generateTags_def Let_def split: sum.splits promise.splits parsed.splits)




section \<open>Properties of the request\<close>

lemma str_includes_iff: "str_includes s sub \<longleftrightarrow> (\<exists>ps ss. s = ps @ sub @ ss)"
proof (induction s)
  case Nil
  then show ?case by simp
next
  case (Cons c cs)
  have "(\<exists>ps ss. c # cs = ps @ sub @ ss) \<longleftrightarrow>
        (\<exists>ss. c # cs = sub @ ss) \<or> (\<exists>ps ss. cs = ps @ sub @ ss)"
    by (auto simp: Cons_eq_append_conv)
  with Cons show ?case by (simp add: prefix_def)
qed

lemma buildRequest_gemini:
  assumes "str_includes (apiUrl config) ''generativelanguage.googleapis.com''"
  shows "buildRequest config content =
        \<lparr>url = apiUrl config @ model config @ '':generateContent?key='' @ apiKey config,
         requestMethod = ''POST'',
         headers = [(''Content-Type'', ''application/json'')],
         body = JObj [(''contents'', JArr [JObj [(''parts'',
                  JArr [JObj [(''text'', JStr SYSTEM_PROMPT)], JObj [(''text'', JStr content)]])]])]\<rparr>"
  using assms
  by (simp add: buildRequest_def getProviderFromUrl_def getFullApiUrl_def getHeaders_def
      getRequestBody_def Let_def)

lemma buildRequest_other:
  assumes "\<not> str_includes (apiUrl config) ''generativelanguage.googleapis.com''"
  shows "buildRequest config content =
        \<lparr>url = apiUrl config,
         requestMethod = ''POST'',
         headers = (''Content-Type'', ''application/json'')
           # (if apiKey config = [] then [] else [(''Authorization'', ''Bearer '' @ apiKey config)]),
         body = JObj [(''model'', JStr (model config)),
                 (''messages'', JArr [
                    JObj [(''role'', JStr ''system''), (''content'', JStr SYSTEM_PROMPT)],
                    JObj [(''role'', JStr ''user''), (''content'', JStr content)]])]\<rparr>"
  using assms
  by (simp add: buildRequest_def getProviderFromUrl_def getFullApiUrl_def getHeaders_def
      getRequestBody_def Let_def)


text \<open>
  C6. Building the request is a total function of the configuration. When the address
  contains the Gemini host, the request is a POST to the address followed by the model and
  \<open>:generateContent\<close>, with the key as the query parameter \<open>key=\<close>, a body whose parts are
  the prompt and the document text in this order, and no Authorization header. For every
  other address the request is a POST to the address itself with the chat body (the model,
  a system message with the prompt, a user message with the text), and an header
  \<open>Authorization: Bearer key\<close> exactly when the key is not empty.
\<close>

theorem request_shape_by_host:
  "(str_includes (apiUrl config) ''generativelanguage.googleapis.com'' \<longrightarrow>
      buildRequest config content =
        \<lparr>url = apiUrl config @ model config @ '':generateContent?key='' @ apiKey config,
         requestMethod = ''POST'',
         headers = [(''Content-Type'', ''application/json'')],
         body = JObj [(''contents'', JArr [JObj [(''parts'',
                  JArr [JObj [(''text'', JStr SYSTEM_PROMPT)], JObj [(''text'', JStr content)]])]])]\<rparr>
      \<and> map_of (headers (buildRequest config content)) ''Authorization'' = None)
   \<and> (\<not> str_includes (apiUrl config) ''generativelanguage.googleapis.com'' \<longrightarrow>
      url (buildRequest config content) = apiUrl config
      \<and> requestMethod (buildRequest config content) = ''POST''
      \<and> body (buildRequest config content) =
          JObj [(''model'', JStr (model config)),
                (''messages'', JArr [
                   JObj [(''role'', JStr ''system''), (''content'', JStr SYSTEM_PROMPT)],
                   JObj [(''role'', JStr ''user''), (''content'', JStr content)]])]
      \<and> map_of (headers (buildRequest config content)) ''Content-Type'' = Some ''application/json''
      \<and> (apiKey config \<noteq> [] \<longrightarrow>
            map_of (headers (buildRequest config content)) ''Authorization''
              = Some (''Bearer '' @ apiKey config))
      \<and> (apiKey config = [] \<longrightarrow>
            map_of (headers (buildRequest config content)) ''Authorization'' = None))
   \<and> (str_includes s sub \<longleftrightarrow> (\<exists>ps ss. s = ps @ sub @ ss))"
proof (intro conjI impI)
  assume g: "str_includes (apiUrl config) ''generativelanguage.googleapis.com''"
  then show "buildRequest config content =
        \<lparr>url = apiUrl config @ model config @ '':generateContent?key='' @ apiKey config,
         requestMethod = ''POST'',
         headers = [(''Content-Type'', ''application/json'')],
         body = JObj [(''contents'', JArr [JObj [(''parts'',
                  JArr [JObj [(''text'', JStr SYSTEM_PROMPT)], JObj [(''text'', JStr content)]])]])]\<rparr>"
    by (rule buildRequest_gemini)
  from g show "map_of (headers (buildRequest config content)) ''Authorization'' = None"
    by (simp add: buildRequest_gemini)
next
  assume o: "\<not> str_includes (apiUrl config) ''generativelanguage.googleapis.com''"
  then show "url (buildRequest config content) = apiUrl config"
    and "requestMethod (buildRequest config content) = ''POST''"
    and "body (buildRequest config content) =
          JObj [(''model'', JStr (model config)),
                (''messages'', JArr [
                   JObj [(''role'', JStr ''system''), (''content'', JStr SYSTEM_PROMPT)],
                   JObj [(''role'', JStr ''user''), (''content'', JStr content)]])]"
    and "map_of (headers (buildRequest config content)) ''Content-Type'' = Some ''application/json''"
    by (simp_all add: buildRequest_other)
  { assume "apiKey config \<noteq> []"
    with o show "map_of (headers (buildRequest config content)) ''Authorization''
              = Some (''Bearer '' @ apiKey config)"
      by (simp add: buildRequest_other) }
  { assume "apiKey config = []"
    with o show "map_of (headers (buildRequest config content)) ''Authorization'' = None"
      by (simp add: buildRequest_other) }
next
  show "str_includes s sub \<longleftrightarrow> (\<exists>ps ss. s = ps @ sub @ ss)" by (rule str_includes_iff)
qed

theorem request_shape_by_host_witness:
  "str_includes (apiUrl geminiConfig) ''generativelanguage.googleapis.com''
   \<and> url (buildRequest geminiConfig ''note'')
       = ''https://generativelanguage.googleapis.com/v1beta/models/gemini-1.5-flash:generateContent?key=secret''
   \<and> map_of (headers (buildRequest geminiConfig ''note'')) ''Authorization'' = None
   \<and> \<not> str_includes (apiUrl golangConfig) ''generativelanguage.googleapis.com''
   \<and> apiKey golangConfig \<noteq> []
   \<and> url (buildRequest golangConfig ''note'') = ''https://api.openai.com/v1/chat/completions''
   \<and> map_of (headers (buildRequest golangConfig ''note'')) ''Authorization'' = Some ''Bearer sk-test''"
proof -
  have g: "str_includes (apiUrl geminiConfig) ''generativelanguage.googleapis.com''"
    by (simp add: geminiConfig_def)
  have o: "\<not> str_includes (apiUrl golangConfig) ''generativelanguage.googleapis.com''"
    by (simp add: golangConfig_def)
  have k: "apiKey golangConfig \<noteq> []" by (simp add: golangConfig_def)
  from request_shape_by_host [of geminiConfig "''note''"] g
  have "buildRequest geminiConfig ''note'' =
        \<lparr>url = apiUrl geminiConfig @ model geminiConfig @ '':generateContent?key='' @ apiKey geminiConfig,
         requestMethod = ''POST'',
         headers = [(''Content-Type'', ''application/json'')],
         body = JObj [(''contents'', JArr [JObj [(''parts'',
                  JArr [JObj [(''text'', JStr SYSTEM_PROMPT)], JObj [(''text'', JStr ''note'')]])]])]\<rparr>"
    and a: "map_of (headers (buildRequest geminiConfig ''note'')) ''Authorization'' = None"
    by blast+
  then have u: "url (buildRequest geminiConfig ''note'')
       = ''https://generativelanguage.googleapis.com/v1beta/models/gemini-1.5-flash:generateContent?key=secret''"
    by (simp add: geminiConfig_def)
  from request_shape_by_host [of golangConfig "''note''"] o k
  have "url (buildRequest golangConfig ''note'') = apiUrl golangConfig"
    and "map_of (headers (buildRequest golangConfig ''note'')) ''Authorization''
              = Some (''Bearer '' @ apiKey golangConfig)"
    by blast+
  then have v: "url (buildRequest golangConfig ''note'') = ''https://api.openai.com/v1/chat/completions''"
    and w: "map_of (headers (buildRequest golangConfig ''note'')) ''Authorization'' = Some ''Bearer sk-test''"
    by (simp_all add: golangConfig_def)
  from g a u o k v w show ?thesis by simp
qed




section \<open>Properties of parsing\<close>

lemma split_not_Nil: "split sep s \<noteq> []"
  by (induction s) (auto split: list.splits)

lemma split_Cons_other:
  "c \<noteq> sep \<Longrightarrow> split sep (c # cs) = (c # hd (split sep cs)) # tl (split sep cs)"
  using split_not_Nil [of sep cs] by (cases "split sep cs") simp_all

lemma split_snoc_other:
  "c \<noteq> sep \<Longrightarrow> split sep (cs @ [c]) = butlast (split sep cs) @ [last (split sep cs) @ [c]]"
proof (induction cs)
  case Nil
  then show ?case by simp
next
  case (Cons d ds)
  obtain p ps where ps: "split sep ds = p # ps"
    using split_not_Nil [of sep ds] by (cases "split sep ds") auto
  show ?case
  proof (cases "d = sep")
    case True
    with Cons ps show ?thesis by simp
  next
    case False
    with Cons ps show ?thesis by (cases ps) simp_all
  qed
qed

lemma trim_Cons_space: "isSpace c \<Longrightarrow> trim (c # p) = trim p"
  by (simp add: trim_def)

lemma trim_snoc_space: "isSpace c \<Longrightarrow> trim (p @ [c]) = trim p"
proof (cases "\<forall>x\<in>set p. isSpace x")
  case True
  assume "isSpace c"
  with True have a: "dropWhile isSpace (p @ [c]) = []" and b: "dropWhile isSpace p = []"
    by simp_all
  show ?thesis unfolding trim_def a b by simp
next
  case False
  assume c: "isSpace c"
  from False obtain x where "x \<in> set p" "\<not> isSpace x" by blast
  then have "dropWhile isSpace (p @ [c]) = dropWhile isSpace p @ [c]"
    by (rule dropWhile_append1)
  with c show ?thesis by (simp add: trim_def)
qed

lemma map_trim_split_Cons:
  assumes "isSpace c" and "c \<noteq> sep"
  shows "map trim (split sep (c # cs)) = map trim (split sep cs)"
proof -
  obtain p ps where ps: "split sep cs = p # ps"
    using split_not_Nil [of sep cs] by (cases "split sep cs") auto
  with assms show ?thesis by (simp add: trim_Cons_space)
qed

lemma map_trim_split_snoc:
  assumes "isSpace c" and "c \<noteq> sep"
  shows "map trim (split sep (cs @ [c])) = map trim (split sep cs)"
proof -
  have ne: "split sep cs \<noteq> []" by (rule split_not_Nil)
  have "map trim (split sep (cs @ [c]))
      = map trim (butlast (split sep cs)) @ [trim (last (split sep cs) @ [c])]"
    using assms(2) by (simp add: split_snoc_other)
  also have "\<dots> = map trim (butlast (split sep cs)) @ [trim (last (split sep cs))]"
    using assms(1) by (simp add: trim_snoc_space)
  also have "\<dots> = map trim (butlast (split sep cs) @ [last (split sep cs)])" by simp
  also have "\<dots> = map trim (split sep cs)" using ne by simp
  finally show ?thesis .
qed

lemma map_trim_split_trimStart:
  assumes "\<not> isSpace sep"
  shows "map trim (split sep (dropWhile isSpace s)) = map trim (split sep s)"
proof (induction s)
  case Nil
  then show ?case by simp
next
  case (Cons c cs)
  show ?case
  proof (cases "isSpace c")
    case True
    with assms have "c \<noteq> sep" by auto
    with True have "map trim (split sep (c # cs)) = map trim (split sep cs)"
      by (rule map_trim_split_Cons)
    with True Cons show ?thesis by simp
  next
    case False
    then show ?thesis by simp
  qed
qed

lemma map_trim_split_trimEnd:
  assumes "\<not> isSpace sep"
  shows "map trim (split sep (rev (dropWhile isSpace (rev s)))) = map trim (split sep s)"
proof (induction s rule: rev_induct)
  case Nil
  then show ?case by simp
next
  case (snoc c cs)
  show ?case
  proof (cases "isSpace c")
    case True
    with assms have "c \<noteq> sep" by auto
    with True have "map trim (split sep (cs @ [c])) = map trim (split sep cs)"
      by (rule map_trim_split_snoc)
    with True snoc show ?thesis by simp
  next
    case False
    then show ?thesis by simp
  qed
qed

lemma comma_not_space: "\<not> isSpace (CHR '','')"
  by (simp add: isSpace_def)

lemma splitTags_trim: "splitTags (trim s) = splitTags s"
proof -
  have "map trim (split (CHR '','') (trim s))
      = map trim (split (CHR '','') (rev (dropWhile isSpace (rev (dropWhile isSpace s)))))"
    by (simp add: trim_def)
  also have "\<dots> = map trim (split (CHR '','') (dropWhile isSpace s))"
    using comma_not_space by (rule map_trim_split_trimEnd)
  also have "\<dots> = map trim (split (CHR '','') s)"
    using comma_not_space by (rule map_trim_split_trimStart)
  finally show ?thesis by (simp add: splitTags_def)
qed

lemma splitTags_Nil: "splitTags [] = []"
  by (simp add: splitTags_def trim_def)

lemma split_no_sep: "p \<in> set (split sep s) \<Longrightarrow> sep \<notin> set p"
proof (induction s arbitrary: p)
  case Nil
  then show ?case by simp
next
  case (Cons c cs)
  obtain q qs where qs: "split sep cs = q # qs"
    using split_not_Nil [of sep cs] by (cases "split sep cs") auto
  with Cons show ?case by (cases "c = sep") auto
qed

lemma set_trim_subset: "set (trim p) \<subseteq> set p"
proof -
  have "set (trim p) \<subseteq> set (dropWhile isSpace p)"
    using set_dropWhileD [of _ isSpace "rev (dropWhile isSpace p)"] by (auto simp: trim_def)
  also have "\<dots> \<subseteq> set p" using set_dropWhileD [of _ isSpace p] by auto
  finally show ?thesis .
qed

lemma trim_keeps_a_character:
  assumes "trim p \<noteq> []"
  shows "removeWhitespace (trim p) \<noteq> []"
proof -
  let ?q = "dropWhile isSpace (rev (dropWhile isSpace p))"
  from assms have ne: "?q \<noteq> []" by (simp add: trim_def)
  then have "\<not> isSpace (hd ?q)" by (rule hd_dropWhile)
  moreover from ne have "hd ?q \<in> set (trim p)" by (simp add: trim_def)
  ultimately show ?thesis by (auto simp: removeWhitespace_def filter_empty_conv)
qed

lemma splitTags_tags:
  assumes "tag \<in> set (splitTags s)"
  shows "tag \<noteq> [] \<and> (\<forall>c\<in>set tag. \<not> isSpace c \<and> c \<noteq> CHR '','')"
proof -
  from assms obtain p where p: "p \<in> set (split (CHR '','') s)" "trim p \<noteq> []"
    "tag = removeWhitespace (trim p)"
    by (auto simp: splitTags_def)
  from p(2,3) have "tag \<noteq> []" by (simp add: trim_keeps_a_character)
  moreover have "\<forall>c\<in>set tag. \<not> isSpace c \<and> c \<noteq> CHR '','' "
  proof
    fix c assume "c \<in> set tag"
    with p(3) have c: "\<not> isSpace c" "c \<in> set (trim p)" by (auto simp: removeWhitespace_def)
    with set_trim_subset [of p] have "c \<in> set p" by auto
    with split_no_sep [OF p(1)] have "c \<noteq> CHR '',''" by auto
    with c(1) show "\<not> isSpace c \<and> c \<noteq> CHR '',''" by simp
  qed
  ultimately show ?thesis by simp
qed

lemma parseResponse_text:
  assumes "textField data p = Inr (JStr t)"
  shows "parseResponse data p = Inr (splitTags t)"
proof (cases "trim t = []")
  case True
  then have "splitTags t = []" using splitTags_trim [of t] by (simp add: splitTags_Nil)
  with assms True show ?thesis by (simp add: parseResponse_def orElse_def splitTags_Nil)
next
  case False
  with assms show ?thesis by (simp add: parseResponse_def orElse_def splitTags_trim)
qed

lemma parseResponse_absent:
  assumes "textField data p = Inr v" and "nullish v"
  shows "parseResponse data p = Inr []"
  using assms by (auto simp: parseResponse_def nullish_def orElse_def splitTags_Nil)

lemma parseResponse_error: "parseResponse data p = Inl e \<Longrightarrow> e = ParseFailed"
  by (auto simp: parseResponse_def split: sum.splits js.splits)

lemma parseResponse_fails_iff:
  "(\<exists>e. parseResponse data p = Inl e) \<longleftrightarrow>
     nullish data \<or> (\<exists>v. textField data p = Inr v \<and> \<not> nullish v \<and> (\<forall>s. v \<noteq> JStr s))"
proof (cases "textField data p")
  case (Inl e)
  then have "nullish data" by (auto simp: textField_def split: if_splits)
  with Inl show ?thesis by (simp add: parseResponse_def)
next
  case (Inr v)
  then have d: "\<not> nullish data" by (auto simp: textField_def split: if_splits)
  show ?thesis
  proof (cases v)
    case (JStr s)
    with Inr d parseResponse_text [of data p s] show ?thesis by simp
  qed (use Inr d in \<open>simp_all add: parseResponse_def nullish_def orElse_def\<close>)
qed

text \<open>
  C5. When the text field of the response is a string, \<open>parseResponse\<close> returns that text
  split at the commas, every piece trimmed, the empty pieces dropped, and all white space
  removed from the pieces that remain; so every tag returned is non-empty and has neither
  white space nor a comma. The body
  \<open>{"choices":[{"message":{"content":"ai, tags, golang"}}]}\<close> yields \<open>ai, tags, golang\<close>
  and the text \<open>machine learning, nlp\<close> yields \<open>machinelearning, nlp\<close>.
\<close>

theorem parse_splits_trims_strips:
  "(textField data p = Inr (JStr t) \<longrightarrow>
      parseResponse data p =
        Inr (map removeWhitespace (filter (\<lambda>tag. tag \<noteq> []) (map trim (split (CHR '','') t))))
      \<and> (\<forall>tags tag. parseResponse data p = Inr tags \<and> tag \<in> set tags \<longrightarrow>
            tag \<noteq> [] \<and> (\<forall>c\<in>set tag. \<not> isSpace c \<and> c \<noteq> CHR '','')))
   \<and> removeWhitespace s = filter (\<lambda>c. \<not> isSpace c) s
   \<and> parseResponse
        (JObj [(''choices'', JArr [JObj [(''message'', JObj [(''content'', JStr ''ai, tags, golang'')])]])])
        ''openai'' = Inr [''ai'', ''tags'', ''golang'']
   \<and> parseResponse
        (JObj [(''choices'', JArr [JObj [(''message'', JObj [(''content'', JStr ''machine learning, nlp'')])]])])
        ''openai'' = Inr [''machinelearning'', ''nlp'']
   \<and> parseResponse
        (JObj [(''candidates'', JArr [JObj [(''content'', JObj [(''parts'',
            JArr [JObj [(''text'', JStr ''machine learning, nlp'')]])])]])])
        ''gemini'' = Inr [''machinelearning'', ''nlp'']"
proof (intro conjI impI allI)
  assume t: "textField data p = Inr (JStr t)"
  then show "parseResponse data p =
        Inr (map removeWhitespace (filter (\<lambda>tag. tag \<noteq> []) (map trim (split (CHR '','') t))))"
    using parseResponse_text [of data p t] by (simp add: splitTags_def)
  fix tags tag
  assume "parseResponse data p = Inr tags \<and> tag \<in> set tags"
  with t have "tag \<in> set (splitTags t)" by (simp add: parseResponse_text)
  then show "tag \<noteq> []" and "\<forall>c\<in>set tag. \<not> isSpace c \<and> c \<noteq> CHR '',''"
    using splitTags_tags [of tag t] by simp_all
next
  show "removeWhitespace s = filter (\<lambda>c. \<not> isSpace c) s" by (simp add: removeWhitespace_def)
next
  show "parseResponse
        (JObj [(''choices'', JArr [JObj [(''message'', JObj [(''content'', JStr ''ai, tags, golang'')])]])])
        ''openai'' = Inr [''ai'', ''tags'', ''golang'']"
    by (simp add: parseResponse_def textField_def optChain_def nullish_def orElse_def
        splitTags_def trim_def isSpace_def removeWhitespace_def)
next
  show "parseResponse
        (JObj [(''choices'', JArr [JObj [(''message'', JObj [(''content'', JStr ''machine learning, nlp'')])]])])
        ''openai'' = Inr [''machinelearning'', ''nlp'']"
    by (simp add: parseResponse_def textField_def optChain_def nullish_def orElse_def
        splitTags_def trim_def isSpace_def removeWhitespace_def)
next
  show "parseResponse
        (JObj [(''candidates'', JArr [JObj [(''content'', JObj [(''parts'',
            JArr [JObj [(''text'', JStr ''machine learning, nlp'')]])])]])])
        ''gemini'' = Inr [''machinelearning'', ''nlp'']"
    by (simp add: parseResponse_def textField_def optChain_def nullish_def orElse_def
        splitTags_def trim_def isSpace_def removeWhitespace_def)
qed

theorem parse_splits_trims_strips_witness:
  "textField
      (JObj [(''choices'', JArr [JObj [(''message'', JObj [(''content'', JStr ''  machine learning ,, nlp '')])]])])
      ''openai'' = Inr (JStr ''  machine learning ,, nlp '')
   \<and> map removeWhitespace (filter (\<lambda>tag. tag \<noteq> [])
        (map trim (split (CHR '','') ''  machine learning ,, nlp ''))) = [''machinelearning'', ''nlp'']
   \<and> parseResponse
      (JObj [(''choices'', JArr [JObj [(''message'', JObj [(''content'', JStr ''  machine learning ,, nlp '')])]])])
      ''openai'' = Inr [''machinelearning'', ''nlp'']
   \<and> ''nlp'' \<in> set [''machinelearning'', ''nlp'']
   \<and> ''nlp'' \<noteq> []"
proof -
  let ?data = "JObj [(''choices'', JArr [JObj [(''message'',
      JObj [(''content'', JStr ''  machine learning ,, nlp '')])]])]"
  have f: "textField ?data ''openai'' = Inr (JStr ''  machine learning ,, nlp '')"
    by (simp add: textField_def optChain_def nullish_def)
  have v: "map removeWhitespace (filter (\<lambda>tag. tag \<noteq> [])
        (map trim (split (CHR '','') ''  machine learning ,, nlp ''))) = [''machinelearning'', ''nlp'']"
    by (simp add: trim_def isSpace_def removeWhitespace_def)
  note inst = parse_splits_trims_strips [of ?data "''openai''" "''  machine learning ,, nlp ''",
      THEN conjunct1, rule_format, OF f]
  from inst [THEN conjunct1] v
  have r: "parseResponse ?data ''openai'' = Inr [''machinelearning'', ''nlp'']" by simp
  have m: "''nlp'' \<in> set [''machinelearning'', ''nlp'']" by simp
  from inst [THEN conjunct2, rule_format, of "[''machinelearning'', ''nlp'']" "''nlp''"] r m
  have "''nlp'' \<noteq> []" by blast
  with f v r m show ?thesis by simp
qed

text \<open>
  C4 fails as stated: a body whose list of choices (or of candidates) has no text in it has
  no text field, and \<open>parseResponse\<close> returns the empty list for it instead of failing.
\<close>

theorem absent_field_parses_to_no_tags:
  "textField (JObj [(''choices'', JArr [])]) ''openai'' = Inr JUndefined
   \<and> parseResponse (JObj [(''choices'', JArr [])]) ''openai'' = Inr []
   \<and> textField (JObj [(''candidates'', JArr [JObj [(''finishReason'', JStr ''SAFETY'')]])]) ''gemini''
       = Inr JUndefined
   \<and> parseResponse (JObj [(''candidates'', JArr [JObj [(''finishReason'', JStr ''SAFETY'')]])]) ''gemini''
       = Inr []"
  by (simp add: parseResponse_def textField_def optChain_def nullish_def orElse_def
      splitTags_def trim_def)

text \<open>
  C4, as the code has it. A body other than \<open>null\<close> in which the expected text field is
  absent (reading it gives \<open>undefined\<close> or \<open>null\<close>) is not an error for \<open>parseResponse\<close>:
  the result is the empty list of tags. \<open>parseResponse\<close> fails exactly for the body
  \<open>null\<close> and for a text field that is present without being a string; its only error is
  the parse failure, which is not a \<open>RequestError\<close> of status 500 or more, so
  \<open>retryRequest\<close> stops after the attempt that raised it; and \<open>generateTags\<close> sends its
  request exactly once whatever the response.
\<close>

theorem absent_field_is_not_an_error:
  "(textField data p = Inr v \<and> nullish v \<longrightarrow> parseResponse data p = Inr [])
   \<and> ((\<exists>e. parseResponse data p = Inl e) \<longleftrightarrow>
        nullish data \<or> (\<exists>w. textField data p = Inr w \<and> \<not> nullish w \<and> (\<forall>s. w \<noteq> JStr s)))
   \<and> (parseResponse data p = Inl e \<longrightarrow> e = ParseFailed \<and> \<not> retryable e)
   \<and> (fn 0 = Inl ParseFailed \<longrightarrow> retryRequest fn = (Inl ParseFailed, [Attempt 0]))
   \<and> snd (generateTags fetch config content) = [buildRequest config content]"
proof (intro conjI impI)
  assume "textField data p = Inr v \<and> nullish v"
  then show "parseResponse data p = Inr []" using parseResponse_absent [of data p v] by simp
next
  show "(\<exists>e. parseResponse data p = Inl e) \<longleftrightarrow>
        nullish data \<or> (\<exists>w. textField data p = Inr w \<and> \<not> nullish w \<and> (\<forall>s. w \<noteq> JStr s))"
    by (rule parseResponse_fails_iff)
next
  assume "parseResponse data p = Inl e"
  then have "e = ParseFailed" by (rule parseResponse_error)
  then show "e = ParseFailed" and "\<not> retryable e" by simp_all
next
  assume f: "fn 0 = Inl ParseFailed"
  then have "\<not> retried (fn 0)" by (simp add: retried_def)
  then have "retryRequest fn = (fn 0, [Attempt 0])" by (rule retryRequest_first)
  with f show "retryRequest fn = (Inl ParseFailed, [Attempt 0])" by simp
next
  show "snd (generateTags fetch config content) = [buildRequest config content]"
    by (rule generateTags_sent)
qed

theorem absent_field_is_not_an_error_witness:
  "textField (JObj [(''choices'', JArr [])]) ''openai'' = Inr JUndefined
   \<and> nullish JUndefined
   \<and> parseResponse (JObj [(''choices'', JArr [])]) ''openai'' = Inr []
   \<and> parseResponse JNull ''openai'' = Inl ParseFailed
   \<and> \<not> retryable ParseFailed
   \<and> retryRequest (\<lambda>i. parseResponse JNull ''openai'') = (Inl ParseFailed, [Attempt 0])"
proof -
  let ?fn = "\<lambda>i::nat. parseResponse JNull ''openai''"
  have f: "textField (JObj [(''choices'', JArr [])]) ''openai'' = Inr JUndefined"
    by (simp add: textField_def optChain_def nullish_def)
  have n: "nullish JUndefined" by (simp add: nullish_def)
  have a: "parseResponse (JObj [(''choices'', JArr [])]) ''openai'' = Inr []"
    using absent_field_is_not_an_error [of "JObj [(''choices'', JArr [])]" "''openai''" JUndefined] f n
    by blast
  have e: "parseResponse JNull ''openai'' = Inl ParseFailed"
    by (simp add: parseResponse_def textField_def nullish_def)
  note inst = absent_field_is_not_an_error [of JNull "''openai''" JUndefined ParseFailed ?fn]
  from inst e have r: "\<not> retryable ParseFailed" by blast
  from e have "?fn 0 = Inl ParseFailed" by simp
  with inst have q: "retryRequest ?fn = (Inl ParseFailed, [Attempt 0])" by blast
  from f n a e r q show ?thesis by simp
qed

text \<open>
  C8 fails as stated for the address and the model: with a key, the settings of the
  provider \<open>volcano\<close> with their empty default model, and settings with an empty address,
  are sent to the network, and the tags of the answer are returned.
\<close>

theorem empty_model_or_address_is_sent:
  "model (the (providerSettings volcanoSettings (provider volcanoSettings))) = []
   \<and> analyzeTags answeringFetch volcanoSettings ''note'' =
       (Some (Inr [''ai'', ''notes'']),
        [\<lparr>url = ''https://ark.cn-beijing.volces.com/api/v3/chat/completions'',
          requestMethod = ''POST'',
          headers = [(''Content-Type'', ''application/json''), (''Authorization'', ''Bearer secret'')],
          body = JObj [(''model'', JStr []),
                 (''messages'', JArr [
                    JObj [(''role'', JStr ''system''), (''content'', JStr SYSTEM_PROMPT)],
                    JObj [(''role'', JStr ''user''), (''content'', JStr ''note'')]])]\<rparr>])
   \<and> apiUrl (the (providerSettings noUrlSettings (provider noUrlSettings))) = []
   \<and> fst (analyzeTags answeringFetch noUrlSettings ''note'') = Some (Inr [''ai'', ''notes''])
   \<and> map url (snd (analyzeTags answeringFetch noUrlSettings ''note'')) = [[]]"
  by (simp add: analyzeTags_def volcanoSettings_def noUrlSettings_def generateTags_def
      buildRequest_def getProviderFromUrl_def getFullApiUrl_def getHeaders_def getRequestBody_def
      makeRequest_def answeringFetch_def ok_def TIMEOUT_def
      parseResponse_def textField_def optChain_def nullish_def orElse_def
      splitTags_def trim_def isSpace_def removeWhitespace_def
      reconcileTags_def reconcileTag_def findSimilarExistingTag_def Let_def)

text \<open>
  C8, as the code has it. \<open>analyzeTags\<close> fails with the missing-key error, and sends
  nothing, whenever the selected provider has no settings or its key is empty, whichever
  provider it is. It checks neither the address nor the model: with a key that is not
  empty, the request is built from the settings and sent, also when the address or the
  model is empty.
\<close>

theorem missing_key_fails_before_sending:
  "(providerSettings settings (provider settings) = None
      \<or> (\<exists>pc. providerSettings settings (provider settings) = Some pc \<and> apiKey pc = []) \<longrightarrow>
      analyzeTags fetch settings content = (Some (Inl ApiKeyMissing), []))
   \<and> (providerSettings settings (provider settings) = Some pc \<and> apiKey pc \<noteq> [] \<longrightarrow>
      snd (analyzeTags fetch settings content) =
        [buildRequest \<lparr>apiKey = apiKey pc, apiUrl = apiUrl pc, model = model pc,
                       existingTags = None\<rparr> content]
      \<and> fst (analyzeTags fetch settings content) \<noteq> Some (Inl ApiKeyMissing))"
proof (intro conjI impI)
  assume "providerSettings settings (provider settings) = None
      \<or> (\<exists>pc. providerSettings settings (provider settings) = Some pc \<and> apiKey pc = [])"
  then show "analyzeTags fetch settings content = (Some (Inl ApiKeyMissing), [])"
    by (auto simp: analyzeTags_def)
next
  assume a: "providerSettings settings (provider settings) = Some pc \<and> apiKey pc \<noteq> []"
  let ?config = "\<lparr>apiKey = apiKey pc, apiUrl = apiUrl pc, model = model pc, existingTags = None\<rparr>"
  obtain result sent where g: "generateTags fetch ?config content = (result, sent)"
    by (cases "generateTags fetch ?config content")
  with generateTags_sent [of fetch ?config content] have sent: "sent = [buildRequest ?config content]"
    by simp
  from a g sent show "snd (analyzeTags fetch settings content) = [buildRequest ?config content]"
    by (auto simp: analyzeTags_def Let_def split: option.splits sum.splits)
  from a g show "fst (analyzeTags fetch settings content) \<noteq> Some (Inl ApiKeyMissing)"
    by (auto simp: analyzeTags_def Let_def split: option.splits sum.splits)
qed

theorem missing_key_fails_before_sending_witness:
  "(\<exists>pc. providerSettings noKeySettings (provider noKeySettings) = Some pc \<and> apiKey pc = [])
   \<and> analyzeTags answeringFetch noKeySettings ''note'' = (Some (Inl ApiKeyMissing), [])
   \<and> providerSettings volcanoSettings (provider volcanoSettings)
       = Some \<lparr>apiKey = ''secret'',
                apiUrl = ''https://ark.cn-beijing.volces.com/api/v3/chat/completions'', model = ''''\<rparr>
   \<and> length (snd (analyzeTags answeringFetch volcanoSettings ''note'')) = 1"
proof -
  have k: "\<exists>pc. providerSettings noKeySettings (provider noKeySettings) = Some pc \<and> apiKey pc = []"
    by (simp add: noKeySettings_def)
  then have a: "analyzeTags answeringFetch noKeySettings ''note'' = (Some (Inl ApiKeyMissing), [])"
    using missing_key_fails_before_sending
      [where settings = noKeySettings and fetch = answeringFetch and content = "''note''"]
    by blast
  let ?pc = "\<lparr>apiKey = ''secret'',
                apiUrl = ''https://ark.cn-beijing.volces.com/api/v3/chat/completions'', model = ''''\<rparr>"
  have v: "providerSettings volcanoSettings (provider volcanoSettings) = Some ?pc"
    by (simp add: volcanoSettings_def)
  have "apiKey ?pc \<noteq> []" by simp
  with v have "snd (analyzeTags answeringFetch volcanoSettings ''note'') =
        [buildRequest \<lparr>apiKey = apiKey ?pc, apiUrl = apiUrl ?pc, model = model ?pc,
                       existingTags = None\<rparr> ''note'']"
    using missing_key_fails_before_sending
      [where settings = volcanoSettings and pc = ?pc and fetch = answeringFetch and content = "''note''"]
    by blast
  then have b: "length (snd (analyzeTags answeringFetch volcanoSettings ''note'')) = 1" by simp
  from k a v b show ?thesis by simp
qed

end
